theory Spec2Isabelle
  imports Complex_Main
begin

section \<open>JavaScript values used by the handlers\<close>

text \<open>
  A JavaScript string is modelled as a \<open>string\<close>; a character stands for the code unit
  of the same number (U+0000 to U+00FF). A Number is a double: not-a-number, one of the
  two infinities, or a finite value, kept as the rational it denotes. The two zeros are
  one value here: \<open>Number.isInteger\<close>, \<open><\<close> and the key comparison of the store do not
  tell them apart.
\<close>

datatype jsnum = NaN | PosInf | NegInf | Fin rat

datatype jsval = JUndefined | JStr string | JNum jsnum

subsection \<open>Rounding a mathematical value to a double\<close>

text \<open>The number of binary digits of a positive integer.\<close>

function bits :: "int \<Rightarrow> int" where
  "bits n = (if n \<le> 0 then 0 else 1 + bits (n div 2))"
  by pat_completeness auto
termination
  by (relation "measure nat") auto

declare bits.simps [simp del]

definition pow2 :: "int \<Rightarrow> rat" where
  "pow2 e = (if 0 \<le> e then 2 ^ nat e else 1 / 2 ^ nat (- e))"

definition round_half_even :: "rat \<Rightarrow> int" where
  "round_half_even x =
     (let f = \<lfloor>x\<rfloor>; d = x - of_int f
      in if d < 1 / 2 then f else if 1 / 2 < d then f + 1
         else if even f then f else f + 1)"

text \<open>
  The exponent \<open>e\<close> of the unit in the last place of a positive \<open>x\<close>: the one with
  \<open>2 ^ 52 \<le> x / 2 ^ e < 2 ^ 53\<close>, and \<open>- 1074\<close> for the subnormal range.
\<close>

definition double_exponent :: "rat \<Rightarrow> int" where
  "double_exponent x =
     (let (p, q) = quotient_of x;
          e0 = bits p - bits q - 53;
          e1 = (if 2 ^ 53 \<le> x / pow2 e0 then e0 + 1 else e0)
      in max e1 (- 1074))"

definition roundToDouble :: "rat \<Rightarrow> jsnum" where
  "roundToDouble x =
     (if x = 0 then Fin 0
      else let a = \<bar>x\<bar>; e = double_exponent a;
               v = of_int (round_half_even (a / pow2 e)) * pow2 e
           in if 2 ^ 1024 \<le> v then (if x < 0 then NegInf else PosInf)
              else Fin (if x < 0 then - v else v))"

subsection \<open>\<open>Number(string)\<close> and unary \<open>+\<close> on a string\<close>

definition isStrWhiteSpaceChar :: "char \<Rightarrow> bool" where
  "isStrWhiteSpaceChar c = ((of_char c :: int) \<in> {9, 10, 11, 12, 13, 32, 160})"

definition trimString :: "string \<Rightarrow> string" where
  "trimString s =
     rev (dropWhile isStrWhiteSpaceChar (rev (dropWhile isStrWhiteSpaceChar s)))"

definition digitOf :: "char \<Rightarrow> int option" where
  "digitOf c =
     (let n = (of_char c :: int)
      in if 48 \<le> n \<and> n \<le> 57 then Some (n - 48)
         else if 97 \<le> n \<and> n \<le> 102 then Some (n - 87)
         else if 65 \<le> n \<and> n \<le> 70 then Some (n - 55)
         else None)"

definition isDigitIn :: "int \<Rightarrow> char \<Rightarrow> bool" where
  "isDigitIn radix c = (case digitOf c of None \<Rightarrow> False | Some d \<Rightarrow> d < radix)"

definition digitsValue :: "int \<Rightarrow> string \<Rightarrow> int" where
  "digitsValue radix ds = foldl (\<lambda>a c. a * radix + the (digitOf c)) 0 ds"

text \<open>\<open>ExponentPart\<close>, or nothing: the power of ten, \<open>None\<close> when the text is neither.\<close>

definition exponentPart :: "string \<Rightarrow> int option" where
  "exponentPart s =
     (case s of
        [] \<Rightarrow> Some 0
      | c # t \<Rightarrow>
          if c = CHR ''e'' \<or> c = CHR ''E'' then
            (let (neg, ds) = (case t of
                                [] \<Rightarrow> (False, [])
                              | d # u \<Rightarrow> if d = CHR ''-'' then (True, u)
                                         else if d = CHR ''+'' then (False, u)
                                         else (False, t))
             in if ds \<noteq> [] \<and> list_all (isDigitIn 10) ds
                then Some (if neg then - digitsValue 10 ds else digitsValue 10 ds)
                else None)
          else None)"

text \<open>The mathematical value of a \<open>StrUnsignedDecimalLiteral\<close> other than \<open>Infinity\<close>.\<close>

definition unsignedDecimalMV :: "string \<Rightarrow> rat option" where
  "unsignedDecimalMV s =
     (let ip = takeWhile (isDigitIn 10) s; r1 = dropWhile (isDigitIn 10) s;
          (fp, r2) = (case r1 of
                        [] \<Rightarrow> ([], [])
                      | c # t \<Rightarrow> if c = CHR ''.''
                                 then (takeWhile (isDigitIn 10) t, dropWhile (isDigitIn 10) t)
                                 else ([], r1))
      in if ip = [] \<and> fp = [] then None
         else case exponentPart r2 of
                None \<Rightarrow> None
              | Some e \<Rightarrow>
                  Some ((of_int (digitsValue 10 ip)
                         + of_int (digitsValue 10 fp) / 10 ^ length fp)
                        * (if 0 \<le> e then 10 ^ nat e else 1 / 10 ^ nat (- e))))"

definition strUnsignedDecimalLiteral :: "bool \<Rightarrow> string \<Rightarrow> jsnum option" where
  "strUnsignedDecimalLiteral neg s =
     (if s = ''Infinity'' then Some (if neg then NegInf else PosInf)
      else case unsignedDecimalMV s of
             None \<Rightarrow> None
           | Some v \<Rightarrow> Some (roundToDouble (if neg then - v else v)))"

definition strDecimalLiteral :: "string \<Rightarrow> jsnum option" where
  "strDecimalLiteral s =
     (case s of
        [] \<Rightarrow> None
      | c # t \<Rightarrow> if c = CHR ''+'' then strUnsignedDecimalLiteral False t
                 else if c = CHR ''-'' then strUnsignedDecimalLiteral True t
                 else strUnsignedDecimalLiteral False s)"

definition nonDecimalIntegerLiteral :: "string \<Rightarrow> int option" where
  "nonDecimalIntegerLiteral s =
     (case s of
        z # x # ds \<Rightarrow>
          (let radix = (if x = CHR ''x'' \<or> x = CHR ''X'' then 16
                        else if x = CHR ''o'' \<or> x = CHR ''O'' then 8
                        else if x = CHR ''b'' \<or> x = CHR ''B'' then 2 else 0)
           in if z = CHR ''0'' \<and> radix \<noteq> 0 \<and> ds \<noteq> [] \<and> list_all (isDigitIn radix) ds
              then Some (digitsValue radix ds) else None)
      | _ \<Rightarrow> None)"

text \<open>
  \<open>StringToNumber\<close>: blanks are trimmed, the empty text is \<open>0\<close>, a decimal or a
  prefixed binary, octal or hexadecimal literal is its value rounded to a double, and
  every other text is \<open>NaN\<close>.
\<close>

definition Number :: "string \<Rightarrow> jsnum" where
  "Number s =
     (let t = trimString s
      in if t = [] then Fin 0
         else case strDecimalLiteral t of
                Some v \<Rightarrow> v
              | None \<Rightarrow> (case nonDecimalIntegerLiteral t of
                           Some n \<Rightarrow> roundToDouble (of_int n)
                         | None \<Rightarrow> NaN))"

text \<open>\<open>Number.isNaN\<close> does not coerce: it is true of the Number \<open>NaN\<close> only.\<close>

definition Number_isNaN :: "jsval \<Rightarrow> bool" where
  "Number_isNaN v = (case v of JNum NaN \<Rightarrow> True | _ \<Rightarrow> False)"

definition Number_isInteger :: "jsnum \<Rightarrow> bool" where
  "Number_isInteger x = (case x of Fin q \<Rightarrow> of_int \<lfloor>q\<rfloor> = q | _ \<Rightarrow> False)"

text \<open>\<open>x < 1\<close> on Numbers: false when \<open>x\<close> is \<open>NaN\<close>.\<close>

definition less_than_one :: "jsnum \<Rightarrow> bool" where
  "less_than_one x = (case x of NaN \<Rightarrow> False | PosInf \<Rightarrow> False | NegInf \<Rightarrow> True
                      | Fin q \<Rightarrow> q < 1)"

text \<open>Unary \<open>+\<close> on a string is the same conversion as \<open>Number\<close>.\<close>

definition unary_plus :: "string \<Rightarrow> jsnum" where
  "unary_plus s = Number s"

text \<open>
  A Number in a template literal, for the integers below \<open>10 ^ 21\<close>: the decimal
  digits, after a minus sign when negative.
\<close>

function decimalDigits :: "int \<Rightarrow> string" where
  "decimalDigits n =
     (if n < 10 then [char_of (48 + n)]
      else decimalDigits (n div 10) @ [char_of (48 + n mod 10)])"
  by pat_completeness auto
termination
  by (relation "measure nat") auto

declare decimalDigits.simps [simp del]

definition toString :: "int \<Rightarrow> string" where
  "toString n = (if n < 0 then CHR ''-'' # decimalDigits (- n) else decimalDigits n)"

section \<open>The store\<close>

text \<open>
  Modelled from the spec: the table \<open>entries(entryId, title, notes, photoUrl)\<close>, whose
  schema is not among the sources. The key \<open>entryId\<close> is an integer, unique, and
  generated by the store from a sequence. The rows are kept in a list; \<open>queries\<close>
  records every statement sent to the store, in order.
\<close>

text \<open>The field \<open>notes\<close> is written \<open>notes'\<close>: the plain name is reserved.\<close>

record entry =
  entryId :: int
  title :: string
  notes' :: string
  photoUrl :: string

datatype param = PNumber jsnum | PText string

datatype query =
    SelectAll
  | SelectById param
  | InsertEntry string string string
  | UpdateById string string string param
  | DeleteById param

record store =
  entries :: "entry list"
  nextEntryId :: int
  queries :: "query list"

datatype error = ClientError nat string | QueryError

text \<open>
  The integer input syntax of the store, for a text parameter compared with the key:
  blanks, an optional sign, decimal digits, blanks.
\<close>

definition isspace :: "char \<Rightarrow> bool" where
  "isspace c = ((of_char c :: int) \<in> {9, 10, 11, 12, 13, 32})"

definition integerInput :: "string \<Rightarrow> int option" where
  "integerInput s =
     (let t = dropWhile isspace s;
          (neg, u) = (case t of
                        [] \<Rightarrow> (False, [])
                      | c # r \<Rightarrow> if c = CHR ''-'' then (True, r)
                                 else if c = CHR ''+'' then (False, r)
                                 else (False, t));
          ds = takeWhile (isDigitIn 10) u; rest = dropWhile (isDigitIn 10) u
      in if ds \<noteq> [] \<and> list_all isspace rest
         then Some (if neg then - digitsValue 10 ds else digitsValue 10 ds)
         else None)"

text \<open>
  The key a parameter stands for in \<open>where "entryId" = $n\<close>. A Number is sent as its
  text: the decimal digits of an integer below \<open>10 ^ 21\<close>; a fraction, an exponent
  form, \<open>NaN\<close> and the infinities are no integer input, and the statement fails. The
  key column is not given a width here.
\<close>

definition keyOfParam :: "param \<Rightarrow> int option" where
  "keyOfParam p =
     (case p of
        PNumber x \<Rightarrow>
          (case x of
             Fin q \<Rightarrow> if of_int \<lfloor>q\<rfloor> = q \<and> \<bar>q\<bar> < 10 ^ 21 then Some \<lfloor>q\<rfloor> else None
           | _ \<Rightarrow> None)
      | PText s \<Rightarrow> integerInput s)"

text \<open>
  \<open>db.query\<close>: the rows the statement returns, or its failure, and the store afterwards.
  An insert takes the next value of the key sequence; the key is unique, so the insert
  fails when a row already has that value.
\<close>

definition db_query :: "query \<Rightarrow> store \<Rightarrow> (error + entry list) \<times> store" where
  "db_query q db =
     (let db1 = db\<lparr>queries := queries db @ [q]\<rparr>
      in case q of
           SelectAll \<Rightarrow> (Inr (entries db), db1)
         | SelectById p \<Rightarrow>
             (case keyOfParam p of
                None \<Rightarrow> (Inl QueryError, db1)
              | Some k \<Rightarrow> (Inr (filter (\<lambda>r. entryId r = k) (entries db)), db1))
         | InsertEntry t n u \<Rightarrow>
             (let r = \<lparr>entryId = nextEntryId db, title = t, notes' = n, photoUrl = u\<rparr>;
                  db2 = db1\<lparr>nextEntryId := nextEntryId db + 1\<rparr>
              in if nextEntryId db \<in> set (map entryId (entries db))
                 then (Inl QueryError, db2)
                 else (Inr [r], db2\<lparr>entries := entries db @ [r]\<rparr>))
         | UpdateById t n u p \<Rightarrow>
             (case keyOfParam p of
                None \<Rightarrow> (Inl QueryError, db1)
              | Some k \<Rightarrow>
                  (let set_fields = (\<lambda>r. r\<lparr>title := t, notes' := n, photoUrl := u\<rparr>)
                   in (Inr (map set_fields (filter (\<lambda>r. entryId r = k) (entries db))),
                       db1\<lparr>entries :=
                              map (\<lambda>r. if entryId r = k then set_fields r else r)
                                (entries db)\<rparr>)))
         | DeleteById p \<Rightarrow>
             (case keyOfParam p of
                None \<Rightarrow> (Inl QueryError, db1)
              | Some k \<Rightarrow>
                  (Inr (filter (\<lambda>r. entryId r = k) (entries db)),
                   db1\<lparr>entries := filter (\<lambda>r. entryId r \<noteq> k) (entries db)\<rparr>)))"

text \<open>
  The states the store is in when only the handlers write to it: keys are unique,
  positive and below the next value of the sequence.
\<close>

definition store_ok :: "store \<Rightarrow> bool" where
  "store_ok db =
     (distinct (map entryId (entries db))
      \<and> list_all (\<lambda>r. 1 \<le> entryId r \<and> entryId r < nextEntryId db) (entries db)
      \<and> 1 \<le> nextEntryId db)"

definition empty_store :: store where
  "empty_store = \<lparr>entries = [], nextEntryId = 1, queries = []\<rparr>"

section \<open>The server: \<open>server.ts\<close>\<close>

datatype reply = EntryReply entry | EntriesReply "entry list" | ErrorReply string

datatype response = Response (status: nat) (reply: reply)

text \<open>
  Modelled from the spec: \<open>errorMiddleware\<close> of \<open>./lib\<close>, which is not among the
  sources. A client error is reported with the status code it carries and its message;
  anything else is a generic 500.
\<close>

definition errorMiddleware :: "error \<Rightarrow> response" where
  "errorMiddleware err =
     (case err of
        ClientError st msg \<Rightarrow> Response st (ErrorReply msg)
      | QueryError \<Rightarrow> Response 500 (ErrorReply ''an unexpected error occurred''))"

text \<open>
  \<open>req.body\<close>, a JSON object: the fields of \<open>Entries\<close> at their declared type, each
  present or not, and the \<open>entryId\<close> the client sends along when it edits.
\<close>

record request_body =
  req_entryId :: "int option"
  req_title :: "string option"
  req_notes :: "string option"
  req_photoUrl :: "string option"

text \<open>\<open>!x\<close> on a field: the field is missing or the empty string.\<close>

definition falsy :: "string option \<Rightarrow> bool" where
  "falsy x = (case x of None \<Rightarrow> True | Some s \<Rightarrow> s = [])"

text \<open>\<open>GET /api/entries\<close>\<close>

definition list_entries :: "store \<Rightarrow> response \<times> store" where
  "list_entries db =
     (case db_query SelectAll db of
        (Inl err, db') \<Rightarrow> (errorMiddleware err, db')
      | (Inr rows, db') \<Rightarrow> (Response 200 (EntriesReply rows), db'))"

text \<open>\<open>GET /api/entries/:entryId\<close>\<close>

definition get_entry :: "string \<Rightarrow> store \<Rightarrow> response \<times> store" where
  "get_entry entryId_param db =
     (if Number_isNaN (JStr entryId_param)
         \<or> \<not> Number_isInteger (unary_plus entryId_param)
         \<or> less_than_one (Number entryId_param)
      then (errorMiddleware (ClientError 400 ''Invalid entryId.''), db)
      else case db_query (SelectById (PNumber (Number entryId_param))) db of
             (Inl err, db') \<Rightarrow> (errorMiddleware err, db')
           | (Inr rows, db') \<Rightarrow>
               (case rows of
                  [] \<Rightarrow> (errorMiddleware
                           (ClientError 404
                              (''entryId '' @ entryId_param @ '' does not exist.'')), db')
                | entry # _ \<Rightarrow> (Response 200 (EntryReply entry), db')))"

text \<open>\<open>POST /api/entries\<close>\<close>

definition create_entry :: "request_body \<Rightarrow> store \<Rightarrow> response \<times> store" where
  "create_entry b db =
     (if falsy (req_title b) \<or> falsy (req_notes b) \<or> falsy (req_photoUrl b)
      then (errorMiddleware (ClientError 400 ''title, notes and photoUrl is required.''), db)
      else case db_query (InsertEntry (the (req_title b)) (the (req_notes b))
                            (the (req_photoUrl b))) db of
             (Inl err, db') \<Rightarrow> (errorMiddleware err, db')
           | (Inr rows, db') \<Rightarrow>
               (case rows of
                  [] \<Rightarrow> (errorMiddleware (ClientError 404 ''Invalid entry''), db')
                | entry # _ \<Rightarrow> (Response 201 (EntryReply entry), db')))"

text \<open>\<open>PUT /api/entries/:entryId\<close>\<close>

definition update_entry :: "string \<Rightarrow> request_body \<Rightarrow> store \<Rightarrow> response \<times> store" where
  "update_entry entryId_param b db =
     (if Number_isNaN (JStr entryId_param)
         \<or> \<not> Number_isInteger (unary_plus entryId_param)
         \<or> less_than_one (Number entryId_param)
      then (errorMiddleware (ClientError 400 ''Invalid entryId.''), db)
      else if falsy (req_title b) \<or> falsy (req_notes b) \<or> falsy (req_photoUrl b)
      then (errorMiddleware (ClientError 400 ''title, notes and photoUrl is required.''), db)
      else case db_query (UpdateById (the (req_title b)) (the (req_notes b))
                            (the (req_photoUrl b)) (PNumber (Number entryId_param))) db of
             (Inl err, db') \<Rightarrow> (errorMiddleware err, db')
           | (Inr rows, db') \<Rightarrow>
               (case rows of
                  [] \<Rightarrow> (errorMiddleware (ClientError 404 ''invalid entry.''), db')
                | entry # _ \<Rightarrow> (Response 201 (EntryReply entry), db')))"

text \<open>\<open>DELETE /api/entries/:entryId\<close>: the parameter of the statement is the path text itself.\<close>

definition delete_entry :: "string \<Rightarrow> store \<Rightarrow> response \<times> store" where
  "delete_entry entryId_param db =
     (if Number_isNaN (JStr entryId_param)
         \<or> \<not> Number_isInteger (unary_plus entryId_param)
         \<or> less_than_one (Number entryId_param)
      then (errorMiddleware (ClientError 400 ''Invalid entryId.''), db)
      else case db_query (DeleteById (PText entryId_param)) db of
             (Inl err, db') \<Rightarrow> (errorMiddleware err, db')
           | (Inr rows, db') \<Rightarrow>
               (case rows of
                  [] \<Rightarrow> (errorMiddleware
                           (ClientError 404
                              (''entryId '' @ entryId_param @ '' does not exists.'')), db')
                | entry # _ \<Rightarrow> (Response 200 (EntryReply entry), db')))"

text \<open>The routes of the application, and a sequence of requests served one after another.\<close>

datatype request =
    GetEntries
  | GetEntry string
  | PostEntry request_body
  | PutEntry string request_body
  | DeleteEntry string

definition app :: "request \<Rightarrow> store \<Rightarrow> response \<times> store" where
  "app req db =
     (case req of
        GetEntries \<Rightarrow> list_entries db
      | GetEntry entryId_param \<Rightarrow> get_entry entryId_param db
      | PostEntry b \<Rightarrow> create_entry b db
      | PutEntry entryId_param b \<Rightarrow> update_entry entryId_param b db
      | DeleteEntry entryId_param \<Rightarrow> delete_entry entryId_param db)"

fun serve :: "request list \<Rightarrow> store \<Rightarrow> store" where
  "serve [] db = db"
| "serve (req # reqs) db = serve reqs (snd (app req db))"

section \<open>The client form: \<open>EntryForm\<close>\<close>

text \<open>
  The state of the component, the values of the three named form controls, and what
  a call of \<open>handleSubmit\<close> does, in order.
\<close>

record form_state =
  form_entry :: "entry option"
  form_photoUrl :: "string option"
  isLoading :: bool
  form_error :: "string option"
  isDeleting :: bool

record form_data =
  fd_title :: string
  fd_photoUrl :: string
  fd_notes :: string

datatype http_method = POST | PUT

datatype effect =
    PreventDefault
  | Fetch http_method string request_body
  | Navigate string

datatype fetch_outcome = NetworkError | Responded nat

datatype promise = Fulfilled | Rejected string

text \<open>\<open>const isEditing = entryId && entryId !== 'new'\<close>, on the route parameter.\<close>

definition isEditing :: "string option \<Rightarrow> bool" where
  "isEditing entryId_param =
     (case entryId_param of None \<Rightarrow> False | Some s \<Rightarrow> s \<noteq> [] \<and> s \<noteq> ''new'')"

definition res_ok :: "nat \<Rightarrow> bool" where
  "res_ok st = (200 \<le> st \<and> st \<le> 299)"

text \<open>
  \<open>updateEntry\<close> and \<open>addEntry\<close> are asynchronous: the call starts the request and
  returns; the promise settles when the request has an outcome. Any failure, of the
  request or of the status, is thrown again as one error; neither function sets the
  state of the component.
\<close>

definition updateEntry :: "string option \<Rightarrow> request_body \<Rightarrow> effect" where
  "updateEntry entryId_param b =
     Fetch PUT (''/api/entries/''
                @ (case entryId_param of None \<Rightarrow> ''undefined'' | Some s \<Rightarrow> s)) b"

definition updateEntry_settled :: "fetch_outcome \<Rightarrow> promise" where
  "updateEntry_settled out =
     (case out of
        NetworkError \<Rightarrow> Rejected ''Failed to add entry. Please try again.''
      | Responded st \<Rightarrow>
          if \<not> res_ok st then Rejected ''Failed to add entry. Please try again.''
          else Fulfilled)"

definition addEntry :: "request_body \<Rightarrow> effect" where
  "addEntry b = Fetch POST ''/api/entries'' b"

definition addEntry_settled :: "fetch_outcome \<Rightarrow> promise" where
  "addEntry_settled out =
     (case out of
        NetworkError \<Rightarrow> Rejected ''Failed to add entry. Please try again.''
      | Responded st \<Rightarrow>
          if \<not> res_ok st then Rejected ''Failed to add entry. Please try again.''
          else Fulfilled)"

text \<open>
  \<open>handleSubmit\<close>, with the outcome the request will have: the effects of the call in
  order, the way the promise it dropped settles, and the state of the component.
  The body of an update is \<open>{...entry, ...newEntry}\<close>: the loaded entry, when there is
  one, under the values of the form.
\<close>

definition handleSubmit ::
  "string option \<Rightarrow> form_state \<Rightarrow> form_data \<Rightarrow> fetch_outcome
     \<Rightarrow> effect list \<times> promise \<times> form_state" where
  "handleSubmit entryId_param st fd out =
     (let newEntry = \<lparr>req_entryId = None, req_title = Some (fd_title fd),
                       req_notes = Some (fd_notes fd), req_photoUrl = Some (fd_photoUrl fd)\<rparr>
      in if isEditing entryId_param
         then ([PreventDefault,
                updateEntry entryId_param
                  (newEntry\<lparr>req_entryId := map_option entryId (form_entry st)\<rparr>),
                Navigate ''/''],
               updateEntry_settled out, st)
         else ([PreventDefault, addEntry newEntry, Navigate ''/''],
               addEntry_settled out, st))"

text \<open>What the component shows: the loading text, the load error, or the form.\<close>

datatype view = LoadingView | ErrorView string | FormView bool bool

definition render :: "string option \<Rightarrow> form_state \<Rightarrow> view" where
  "render entryId_param st =
     (if isLoading st then LoadingView
      else case form_error st of
             Some msg \<Rightarrow> ErrorView msg
           | None \<Rightarrow> FormView (isEditing entryId_param) (isDeleting st))"

section \<open>What a path text denotes\<close>

text \<open>
  The exact value of a numeric text, before any rounding: the reading of
  ``denotes a positive integer'' that the validation is compared with.
\<close>

definition mathematicalValue :: "string \<Rightarrow> rat option" where
  "mathematicalValue s =
     (case trimString s of
        [] \<Rightarrow> None
      | c # t \<Rightarrow>
          if c = CHR ''+'' then unsignedDecimalMV t
          else if c = CHR ''-'' then map_option uminus (unsignedDecimalMV t)
          else (case unsignedDecimalMV (c # t) of
                  Some v \<Rightarrow> Some v
                | None \<Rightarrow> map_option of_int (nonDecimalIntegerLiteral (c # t))))"

definition denotes_positive_integer :: "string \<Rightarrow> bool" where
  "denotes_positive_integer s =
     (case mathematicalValue s of
        None \<Rightarrow> False
      | Some v \<Rightarrow> of_int \<lfloor>v\<rfloor> = v \<and> 1 \<le> v)"

section \<open>The example of the specification\<close>

definition trip :: request_body where
  "trip = \<lparr>req_entryId = None, req_title = Some ''Trip'', req_notes = Some ''Fun'',
           req_photoUrl = Some ''http://x/y.jpg''\<rparr>"

definition trip_entry :: entry where
  "trip_entry = \<lparr>entryId = 1, title = ''Trip'', notes' = ''Fun'',
                 photoUrl = ''http://x/y.jpg''\<rparr>"

definition trip_store :: store where
  "trip_store = \<lparr>entries = [trip_entry], nextEntryId = 2, queries = []\<rparr>"

definition walk :: request_body where
  "walk = \<lparr>req_entryId = Some 7, req_title = Some ''Walk'', req_notes = Some ''Rain'',
           req_photoUrl = Some ''http://x/z.png''\<rparr>"

definition walk_entry :: entry where
  "walk_entry = \<lparr>entryId = 2, title = ''Walk'', notes' = ''Rain'',
                 photoUrl = ''http://x/z.png''\<rparr>"

definition two_store :: store where
  "two_store = \<lparr>entries = [trip_entry, walk_entry], nextEntryId = 3, queries = []\<rparr>"

definition idle_form :: form_state where
  "idle_form = \<lparr>form_entry = None, form_photoUrl = None, isLoading = False,
                form_error = None, isDeleting = False\<rparr>"

definition trip_form :: form_data where
  "trip_form = \<lparr>fd_title = ''Trip'', fd_photoUrl = ''http://x/y.jpg'', fd_notes = ''Fun''\<rparr>"

section \<open>Decimal texts and safe integers\<close>

lemma isDigitIn_10_iff: "isDigitIn 10 c \<longleftrightarrow> 48 \<le> (of_char c :: int) \<and> (of_char c :: int) \<le> 57"
  by (auto simp: isDigitIn_def digitOf_def Let_def split: option.splits if_splits)

lemma digitOf_char_of: "0 \<le> d \<Longrightarrow> d < 10 \<Longrightarrow> digitOf (char_of (48 + d)) = Some d"
  by (simp add: digitOf_def Let_def)

lemma isDigitIn_char_of: "0 \<le> d \<Longrightarrow> d < 10 \<Longrightarrow> isDigitIn 10 (char_of (48 + (d::int)))"
  by (simp add: isDigitIn_def digitOf_char_of)

lemma decimalDigits_not_Nil: "decimalDigits n \<noteq> []"
  by (subst decimalDigits.simps) simp

lemma decimalDigits_all_digits: "0 \<le> n \<Longrightarrow> list_all (isDigitIn 10) (decimalDigits n)"
proof (induction n rule: decimalDigits.induct)
  case (1 n)
  show ?case
  proof (cases "n < 10")
    case True
    with "1.prems" show ?thesis
      by (subst decimalDigits.simps) (simp add: isDigitIn_char_of)
  next
    case False
    then have "0 \<le> n div 10" by simp
    with False "1.IH" have "list_all (isDigitIn 10) (decimalDigits (n div 10))" by simp
    moreover have "isDigitIn 10 (char_of (48 + n mod 10))"
      by (rule isDigitIn_char_of) simp_all
    ultimately show ?thesis using False
      by (subst decimalDigits.simps) simp
  qed
qed

lemma digitsValue_snoc: "digitsValue r (ds @ [c]) = digitsValue r ds * r + the (digitOf c)"
  by (simp add: digitsValue_def)

lemma digitsValue_decimalDigits: "0 \<le> n \<Longrightarrow> digitsValue 10 (decimalDigits n) = n"
proof (induction n rule: decimalDigits.induct)
  case (1 n)
  show ?case
  proof (cases "n < 10")
    case True
    with "1.prems" show ?thesis
      by (subst decimalDigits.simps) (simp add: digitsValue_def digitOf_char_of)
  next
    case False
    then have "0 \<le> n div 10" by simp
    with False "1.IH" have "digitsValue 10 (decimalDigits (n div 10)) = n div 10" by simp
    moreover have "digitOf (char_of (48 + n mod 10)) = Some (n mod 10)"
      by (rule digitOf_char_of) simp_all
    ultimately show ?thesis using False
      by (subst decimalDigits.simps) (simp add: digitsValue_snoc)
  qed
qed

lemma digit_not_blank: "isDigitIn 10 c \<Longrightarrow> \<not> isStrWhiteSpaceChar c"
  by (auto simp: isDigitIn_10_iff isStrWhiteSpaceChar_def)

lemma digit_not_space: "isDigitIn 10 c \<Longrightarrow> \<not> isspace c"
  by (auto simp: isDigitIn_10_iff isspace_def)

lemma digit_not_sign: "isDigitIn 10 c \<Longrightarrow> c \<noteq> CHR ''+'' \<and> c \<noteq> CHR ''-'' \<and> c \<noteq> CHR ''I''"
  by (auto simp: isDigitIn_10_iff)

lemma dropWhile_none: "list_all (\<lambda>c. \<not> P c) xs \<Longrightarrow> dropWhile P xs = xs"
  by (cases xs) simp_all

lemma trimString_digits:
  assumes "list_all (isDigitIn 10) ds"
  shows "trimString ds = ds"
proof -
  have a: "list_all (\<lambda>c. \<not> isStrWhiteSpaceChar c) ds"
    using assms by (simp add: list_all_iff digit_not_blank)
  then have b: "list_all (\<lambda>c. \<not> isStrWhiteSpaceChar c) (rev ds)"
    by (simp add: list_all_iff)
  show ?thesis
    by (simp add: trimString_def dropWhile_none [OF a] dropWhile_none [OF b])
qed

lemma takeWhile_digits: "list_all (isDigitIn 10) ds \<Longrightarrow> takeWhile (isDigitIn 10) ds = ds"
  by (simp add: list_all_iff)

lemma dropWhile_digits: "list_all (isDigitIn 10) ds \<Longrightarrow> dropWhile (isDigitIn 10) ds = []"
  by (simp add: list_all_iff)

lemma unsignedDecimalMV_digits:
  assumes "list_all (isDigitIn 10) ds" "ds \<noteq> []"
  shows "unsignedDecimalMV ds = Some (of_int (digitsValue 10 ds))"
  using assms
  by (simp add: unsignedDecimalMV_def takeWhile_digits dropWhile_digits exponentPart_def
      digitsValue_def)

lemma strDecimalLiteral_digits:
  assumes "list_all (isDigitIn 10) ds" "ds \<noteq> []"
  shows "strDecimalLiteral ds = Some (roundToDouble (of_int (digitsValue 10 ds)))"
proof -
  obtain c t where ds: "ds = c # t" using assms(2) by (cases ds) auto
  with assms(1) have c: "isDigitIn 10 c" by simp
  have "ds \<noteq> ''Infinity''" using c ds digit_not_sign by auto
  then show ?thesis
    using digit_not_sign [OF c] unsignedDecimalMV_digits [OF assms]
    by (simp add: strDecimalLiteral_def strUnsignedDecimalLiteral_def ds)
qed

lemma integerInput_digits:
  assumes "list_all (isDigitIn 10) ds" "ds \<noteq> []"
  shows "integerInput ds = Some (digitsValue 10 ds)"
proof -
  obtain c t where ds: "ds = c # t" using assms(2) by (cases ds) auto
  with assms(1) have c: "isDigitIn 10 c" by simp
  have a: "dropWhile isspace ds = ds"
    using c ds digit_not_space by simp
  have b: "(case ds of
              [] \<Rightarrow> (False, [])
            | c # r \<Rightarrow> if c = CHR ''-'' then (True, r)
                       else if c = CHR ''+'' then (False, r)
                       else (False, ds)) = (False, ds)"
    using digit_not_sign [OF c] by (simp add: ds)
  show ?thesis
    using assms
    by (simp add: integerInput_def Let_def a b takeWhile_digits dropWhile_digits)
qed

lemma bits_upper: "n < 2 ^ k \<Longrightarrow> bits n \<le> int k"
proof (induction k arbitrary: n)
  case 0
  then show ?case by (subst bits.simps) simp
next
  case (Suc k)
  show ?case
  proof (cases "n \<le> 0")
    case True
    then show ?thesis by (subst bits.simps) simp
  next
    case False
    from Suc.prems have "n div 2 < 2 ^ k" by simp
    then have "bits (n div 2) \<le> int k" by (rule Suc.IH)
    with False show ?thesis by (subst bits.simps) simp
  qed
qed

lemma bits_one: "bits 1 = 1"
  by (simp add: bits.simps [of 1] bits.simps [of 0])

lemma round_half_even_of_int: "round_half_even (of_int m) = m"
  by (simp add: round_half_even_def)

lemma double_exponent_small:
  assumes "0 < n" "n < 2 ^ 53"
  shows "double_exponent (of_int n) \<le> 0"
proof -
  have "bits n \<le> 53" using bits_upper [of n 53] assms by simp
  then show ?thesis
    by (simp add: double_exponent_def quotient_of_int bits_one Let_def)
qed

lemma scaled_exact:
  assumes "e \<le> 0"
  shows "of_int (round_half_even (of_int n / pow2 e)) * pow2 e = of_int n"
proof -
  have p: "pow2 e = 1 / 2 ^ nat (- e)"
    using assms by (cases "e = 0") (simp_all add: pow2_def)
  have "of_int n / pow2 e = (of_int (n * 2 ^ nat (- e)) :: rat)"
    by (simp add: p)
  then have "round_half_even (of_int n / pow2 e) = n * 2 ^ nat (- e)"
    by (simp only: round_half_even_of_int)
  then show ?thesis by (simp add: p)
qed

lemma roundToDouble_exact:
  assumes "0 \<le> n" "n < 2 ^ 53"
  shows "roundToDouble (of_int n) = Fin (of_int n)"
proof (cases "n = 0")
  case True
  then show ?thesis by (simp add: roundToDouble_def)
next
  case False
  with assms have pos: "0 < n" by simp
  have abs: "\<bar>of_int n :: rat\<bar> = of_int n" using pos by simp
  have e: "double_exponent (of_int n) \<le> 0" by (rule double_exponent_small [OF pos assms(2)])
  have small: "\<not> (2 :: rat) ^ 1024 \<le> of_int n"
  proof -
    have "(of_int n :: rat) < of_int (2 ^ 53)" using assms(2) by (simp only: of_int_less_iff)
    also have "\<dots> \<le> 2 ^ 1024" by simp
    finally show ?thesis by simp
  qed
  show ?thesis
    using pos small
    by (simp add: roundToDouble_def Let_def abs scaled_exact [OF e])
qed

section \<open>The handlers on well-formed paths and stores\<close>

lemma toString_nonneg: "0 \<le> n \<Longrightarrow> toString n = decimalDigits n"
  by (simp add: toString_def)

lemma Number_toString:
  assumes "0 \<le> n" "n < 2 ^ 53"
  shows "Number (toString n) = Fin (of_int n)"
proof -
  have d: "list_all (isDigitIn 10) (decimalDigits n)"
    by (rule decimalDigits_all_digits [OF assms(1)])
  have "strDecimalLiteral (decimalDigits n) = Some (roundToDouble (of_int n))"
    using strDecimalLiteral_digits [OF d decimalDigits_not_Nil]
    by (simp add: digitsValue_decimalDigits [OF assms(1)])
  then show ?thesis
    by (simp add: Number_def toString_nonneg [OF assms(1)] trimString_digits [OF d]
        decimalDigits_not_Nil roundToDouble_exact [OF assms])
qed

lemma Number_isNaN_string: "Number_isNaN (JStr s) = False"
  by (simp add: Number_isNaN_def)

lemma entryId_check_iff:
  "(Number_isNaN (JStr s) \<or> \<not> Number_isInteger (unary_plus s) \<or> less_than_one (Number s))
     = (\<not> (\<exists>n. 1 \<le> n \<and> Number s = Fin (of_int n)))"
proof (cases "Number s")
  case (Fin q)
  show ?thesis
  proof (cases "of_int \<lfloor>q\<rfloor> = q")
    case True
    then have "(\<exists>n. 1 \<le> n \<and> q = of_int n) = (1 \<le> q)"
      by (metis of_int_1_le_iff)
    with True show ?thesis
      by (auto simp: Number_isNaN_string Number_isInteger_def unary_plus_def
          less_than_one_def Fin)
  next
    case False
    then have "\<not> (\<exists>n. 1 \<le> n \<and> q = of_int n)" by auto
    with False show ?thesis
      by (simp add: Number_isNaN_string Number_isInteger_def unary_plus_def
          less_than_one_def Fin)
  qed
qed (simp_all add: Number_isNaN_string Number_isInteger_def unary_plus_def less_than_one_def)

lemma entryId_check_toString:
  assumes "1 \<le> n" "n < 2 ^ 53"
  shows "\<not> (Number_isNaN (JStr (toString n)) \<or> \<not> Number_isInteger (unary_plus (toString n))
            \<or> less_than_one (Number (toString n)))"
proof -
  have "Number (toString n) = Fin (of_int n)"
    using assms by (intro Number_toString) simp_all
  with assms(1) show ?thesis
    unfolding entryId_check_iff by blast
qed

lemma keyOfParam_number:
  assumes "0 \<le> n" "n < 2 ^ 53"
  shows "keyOfParam (PNumber (Fin (of_int n))) = Some n"
proof -
  have "n < 10 ^ 21" using assms(2) by simp
  then have "(of_int n :: rat) < of_int (10 ^ 21)" by (simp only: of_int_less_iff)
  then have "\<bar>of_int n :: rat\<bar> < 10 ^ 21" using assms(1) by simp
  then show ?thesis by (simp add: keyOfParam_def)
qed

lemma keyOfParam_text: "0 \<le> n \<Longrightarrow> keyOfParam (PText (toString n)) = Some n"
  using integerInput_digits [OF decimalDigits_all_digits decimalDigits_not_Nil, of n]
  by (simp add: keyOfParam_def toString_nonneg digitsValue_decimalDigits)

lemma filter_key_unique:
  "distinct (map entryId rows) \<Longrightarrow> e \<in> set rows
     \<Longrightarrow> filter (\<lambda>r. entryId r = entryId e) rows = [e]"
proof (induction rows)
  case Nil
  then show ?case by simp
next
  case (Cons r rows)
  show ?case
  proof (cases "r = e")
    case True
    with Cons.prems have "entryId e \<notin> entryId ` set rows" by simp
    then have "\<forall>x \<in> set rows. entryId x \<noteq> entryId e" by (metis imageI)
    then have "filter (\<lambda>r. entryId r = entryId e) rows = []" by (simp add: filter_empty_conv)
    with True show ?thesis by simp
  next
    case False
    with Cons.prems have "e \<in> set rows" by simp
    moreover from this Cons.prems have "entryId r \<noteq> entryId e" by auto
    ultimately show ?thesis using Cons by simp
  qed
qed

lemma filter_key_absent:
  "k \<notin> entryId ` set rows \<Longrightarrow> filter (\<lambda>r. entryId r = k) rows = []"
  by (auto simp: filter_empty_conv)

lemma store_ok_row:
  "store_ok db \<Longrightarrow> e \<in> set (entries db) \<Longrightarrow> 1 \<le> entryId e \<and> entryId e < nextEntryId db"
  by (auto simp: store_ok_def list_all_iff)

lemma get_entry_existing:
  assumes "store_ok db" "e \<in> set (entries db)" "entryId e < 2 ^ 53"
  shows "get_entry (toString (entryId e)) db
         = (Response 200 (EntryReply e),
            db\<lparr>queries := queries db @ [SelectById (PNumber (Fin (of_int (entryId e))))]\<rparr>)"
proof -
  have pos: "1 \<le> entryId e" using store_ok_row [OF assms(1,2)] by simp
  then have nn: "0 \<le> entryId e" by simp
  have chk: "\<not> (Number_isNaN (JStr (toString (entryId e)))
                \<or> \<not> Number_isInteger (unary_plus (toString (entryId e)))
                \<or> less_than_one (Number (toString (entryId e))))"
    by (rule entryId_check_toString [OF pos assms(3)])
  have rows: "filter (\<lambda>r. entryId r = entryId e) (entries db) = [e]"
    using assms(1,2) by (intro filter_key_unique) (simp_all add: store_ok_def)
  show ?thesis
    unfolding get_entry_def if_not_P [OF chk]
    by (simp add: Number_toString [OF nn assms(3)] db_query_def
        keyOfParam_number [OF nn assms(3)] rows)
qed

lemma get_entry_absent:
  assumes "1 \<le> n" "n < 2 ^ 53" "n \<notin> entryId ` set (entries db)"
  shows "fst (get_entry (toString n) db)
         = Response 404 (ErrorReply (''entryId '' @ toString n @ '' does not exist.''))"
proof -
  have nn: "0 \<le> n" using assms(1) by simp
  have chk: "\<not> (Number_isNaN (JStr (toString n))
                \<or> \<not> Number_isInteger (unary_plus (toString n))
                \<or> less_than_one (Number (toString n)))"
    by (rule entryId_check_toString [OF assms(1,2)])
  show ?thesis
    unfolding get_entry_def if_not_P [OF chk]
    by (simp add: Number_toString [OF nn assms(2)] db_query_def
        keyOfParam_number [OF nn assms(2)] filter_key_absent [OF assms(3)]
        errorMiddleware_def)
qed

lemma insert_into_ok_store:
  assumes "store_ok db"
  shows "db_query (InsertEntry t n u) db
         = (Inr [\<lparr>entryId = nextEntryId db, title = t, notes' = n, photoUrl = u\<rparr>],
            db\<lparr>queries := queries db @ [InsertEntry t n u],
               nextEntryId := nextEntryId db + 1,
               entries := entries db
                          @ [\<lparr>entryId = nextEntryId db, title = t, notes' = n, photoUrl = u\<rparr>]\<rparr>)"
proof -
  have "nextEntryId db \<notin> set (map entryId (entries db))"
    using assms by (auto simp: store_ok_def list_all_iff)
  then show ?thesis by (simp add: db_query_def Let_def)
qed



lemma store_ok_empty_store: "store_ok empty_store"
  by (simp add: store_ok_def empty_store_def)

lemma store_ok_trip_store: "store_ok trip_store"
  by (simp add: store_ok_def trip_store_def trip_entry_def)

lemma example_create: "create_entry trip empty_store = (Response 201 (EntryReply trip_entry), trip_store\<lparr>queries := [InsertEntry ''Trip'' ''Fun'' ''http://x/y.jpg'']\<rparr>)"
  by (simp add: create_entry_def trip_def falsy_def db_query_def Let_def
      empty_store_def trip_store_def trip_entry_def)

section \<open>Conversions of particular texts\<close>

lemma roundToDouble_numeral:
  "numeral k < (2 :: int) ^ 53 \<Longrightarrow> roundToDouble (numeral k) = Fin (numeral k)"
  using roundToDouble_exact [of "numeral k"] by simp

lemma Number_decimal:
  assumes "trimString s = c # t" "c \<noteq> CHR ''+''" "c \<noteq> CHR ''-''"
    and "c # t \<noteq> ''Infinity''" "unsignedDecimalMV (c # t) = Some v"
  shows "Number s = roundToDouble v"
proof -
  have "strUnsignedDecimalLiteral False (c # t) = Some (roundToDouble v)"
    using assms(4,5) by (simp only: strUnsignedDecimalLiteral_def) simp
  then have "strDecimalLiteral (c # t) = Some (roundToDouble v)"
    using assms(2,3) by (simp add: strDecimalLiteral_def)
  then show ?thesis by (simp add: Number_def assms(1))
qed

lemma Number_1_0: "Number ''1.0'' = Fin 1"
proof -
  have t: "trimString ''1.0'' = ''1.0''" by code_simp
  have v: "unsignedDecimalMV ''1.0'' = Some 1" by code_simp
  have "Number ''1.0'' = roundToDouble 1" by (rule Number_decimal [OF t _ _ _ v]) simp_all
  also have "\<dots> = Fin 1" using roundToDouble_exact [of 1] by simp
  finally show ?thesis .
qed

lemma Number_blank_7: "Number '' 7 '' = Fin 7"
proof -
  have t: "trimString '' 7 '' = ''7''" by code_simp
  have v: "unsignedDecimalMV ''7'' = Some 7" by code_simp
  have "Number '' 7 '' = roundToDouble 7" by (rule Number_decimal [OF t _ _ _ v]) simp_all
  also have "\<dots> = Fin 7" by (rule roundToDouble_numeral) simp
  finally show ?thesis .
qed

lemma Number_2e3: "Number ''2e3'' = Fin 2000"
proof -
  have t: "trimString ''2e3'' = ''2e3''" by code_simp
  have v: "unsignedDecimalMV ''2e3'' = Some 2000" by code_simp
  have "Number ''2e3'' = roundToDouble 2000" by (rule Number_decimal [OF t _ _ _ v]) simp_all
  also have "\<dots> = Fin 2000" by (rule roundToDouble_numeral) simp
  finally show ?thesis .
qed

lemma Number_0x10: "Number ''0x10'' = Fin 16"
proof -
  have t: "trimString ''0x10'' = ''0x10''" by code_simp
  have v: "unsignedDecimalMV ''0x10'' = None" by code_simp
  have h: "nonDecimalIntegerLiteral ''0x10'' = Some 16" by code_simp
  have "Number ''0x10'' = roundToDouble (of_int 16)"
    by (simp add: Number_def t strDecimalLiteral_def strUnsignedDecimalLiteral_def v h)
  also have "\<dots> = Fin 16" using roundToDouble_exact [of 16] by simp
  finally show ?thesis .
qed

lemma Number_1_5: "Number ''1.5'' = Fin (3 / 2)"
proof -
  have t: "trimString ''1.5'' = ''1.5''" by code_simp
  have v: "unsignedDecimalMV ''1.5'' = Some (3 / 2)" by code_simp
  have q: "quotient_of (3 / 2) = (3, 2)" by code_simp
  have b: "bits 3 = 2" "bits 2 = 2" by code_simp+
  have e: "double_exponent (3 / 2) = - 52"
    by (simp add: double_exponent_def q b pow2_def)
  have "Number ''1.5'' = roundToDouble (3 / 2)" by (rule Number_decimal [OF t _ _ _ v]) simp_all
  also have "\<dots> = Fin (3 / 2)"
    by (simp add: roundToDouble_def e pow2_def round_half_even_def Let_def)
  finally show ?thesis .
qed

lemma Number_near_one: "Number ''1.00000000000000001'' = Fin 1"
proof -
  have t: "trimString ''1.00000000000000001'' = ''1.00000000000000001''" by code_simp
  have v: "unsignedDecimalMV ''1.00000000000000001''
           = Some (100000000000000001 / 100000000000000000)" by code_simp
  have q: "quotient_of (100000000000000001 / 100000000000000000)
           = (100000000000000001, 100000000000000000)" by code_simp
  have b: "bits 100000000000000001 = 57" "bits 100000000000000000 = 57" by code_simp+
  have e: "double_exponent (100000000000000001 / 100000000000000000) = - 52"
    by (simp add: double_exponent_def q b pow2_def)
  have r: "round_half_even (3435973836800000034359738368 / 762939453125) = 4503599627370496"
    by code_simp
  have "Number ''1.00000000000000001''
        = roundToDouble (100000000000000001 / 100000000000000000)"
    by (rule Number_decimal [OF t _ _ _ v]) simp_all
  also have "\<dots> = Fin 1"
    by (simp add: roundToDouble_def e pow2_def r Let_def)
  finally show ?thesis .
qed

section \<open>What the handlers preserve\<close>

lemma db_query_keeps_absent:
  assumes "n \<notin> entryId ` set (entries db)" "n < nextEntryId db"
  shows "n \<notin> entryId ` set (entries (snd (db_query q db)))
         \<and> n < nextEntryId (snd (db_query q db))"
  using assms by (cases q) (auto simp: db_query_def Let_def split: option.splits)

lemma set_fields_keeps_key:
  "entryId \<circ> (\<lambda>r. if entryId r = k then r\<lparr>title := t, notes' := n, photoUrl := u\<rparr> else r)
   = entryId"
  by (rule ext) simp

lemma db_query_keeps_store_ok:
  assumes "store_ok db"
  shows "store_ok (snd (db_query q db))"
proof (cases q)
  case (InsertEntry t n u)
  then show ?thesis
    using assms by (auto simp: db_query_def Let_def store_ok_def list_all_iff)
next
  case (UpdateById t n u p)
  then show ?thesis
    using assms
    by (auto simp: db_query_def Let_def store_ok_def list_all_iff set_fields_keeps_key
        split: option.splits)
next
  case (DeleteById p)
  then show ?thesis
    using assms
    by (auto simp: db_query_def Let_def store_ok_def list_all_iff distinct_map_filter
        split: option.splits)
qed (use assms in \<open>auto simp: db_query_def Let_def store_ok_def split: option.splits\<close>)

lemma list_entries_store: "snd (list_entries db) = snd (db_query SelectAll db)"
  by (simp add: list_entries_def split: prod.splits sum.splits)

lemma get_entry_store:
  "snd (get_entry s db) = db
   \<or> snd (get_entry s db) = snd (db_query (SelectById (PNumber (Number s))) db)"
  by (simp add: get_entry_def split: prod.splits sum.splits list.splits)

lemma create_entry_store:
  "snd (create_entry b db) = db
   \<or> snd (create_entry b db)
     = snd (db_query (InsertEntry (the (req_title b)) (the (req_notes b))
                        (the (req_photoUrl b))) db)"
  by (simp add: create_entry_def split: prod.splits sum.splits list.splits)

lemma update_entry_store:
  "snd (update_entry s b db) = db
   \<or> snd (update_entry s b db)
     = snd (db_query (UpdateById (the (req_title b)) (the (req_notes b))
                        (the (req_photoUrl b)) (PNumber (Number s))) db)"
  by (simp add: update_entry_def split: prod.splits sum.splits list.splits)

lemma delete_entry_store:
  "snd (delete_entry s db) = db
   \<or> snd (delete_entry s db) = snd (db_query (DeleteById (PText s)) db)"
  by (simp add: delete_entry_def split: prod.splits sum.splits list.splits)

lemma app_store:
  "snd (app req db) = db \<or> (\<exists>q. snd (app req db) = snd (db_query q db))"
proof (cases req)
  case GetEntries
  then show ?thesis using list_entries_store [of db] by (auto simp: app_def)
next
  case (GetEntry s)
  then show ?thesis using get_entry_store [of s db] by (auto simp: app_def)
next
  case (PostEntry b)
  then show ?thesis using create_entry_store [of b db] by (auto simp: app_def)
next
  case (PutEntry s b)
  then show ?thesis using update_entry_store [of s b db] by (auto simp: app_def)
next
  case (DeleteEntry s)
  then show ?thesis using delete_entry_store [of s db] by (auto simp: app_def)
qed

lemma app_keeps_store_ok: "store_ok db \<Longrightarrow> store_ok (snd (app req db))"
  using app_store [of req db] db_query_keeps_store_ok [of db] by (metis (full_types))

lemma serve_keeps_store_ok: "store_ok db \<Longrightarrow> store_ok (serve reqs db)"
  by (induction reqs arbitrary: db) (simp_all add: app_keeps_store_ok)

lemma served_store_ok: "store_ok (serve reqs empty_store)"
  by (rule serve_keeps_store_ok [OF store_ok_empty_store])

lemma app_keeps_absent:
  assumes "n \<notin> entryId ` set (entries db)" "n < nextEntryId db"
  shows "n \<notin> entryId ` set (entries (snd (app req db)))
         \<and> n < nextEntryId (snd (app req db))"
proof -
  from app_store [of req db] consider "snd (app req db) = db"
    | q where "snd (app req db) = snd (db_query q db)" by blast
  then show ?thesis
  proof cases
    case 1
    with assms show ?thesis by simp
  next
    case 2
    with db_query_keeps_absent [OF assms, of q] show ?thesis by simp
  qed
qed

lemma serve_keeps_absent:
  "n \<notin> entryId ` set (entries db) \<Longrightarrow> n < nextEntryId db
     \<Longrightarrow> n \<notin> entryId ` set (entries (serve reqs db))"
proof (induction reqs arbitrary: db)
  case Nil
  then show ?case by simp
next
  case (Cons req reqs)
  from app_keeps_absent [OF Cons.prems, of req] show ?case
    by (simp add: Cons.IH)
qed

lemma entryId_check_exec:
  "(Number_isNaN (JStr s) \<or> \<not> Number_isInteger (unary_plus s) \<or> less_than_one (Number s))
     = (\<not> Number_isInteger (Number s) \<or> less_than_one (Number s))"
  by (simp add: Number_isNaN_string unary_plus_def)

lemma not_integer_3_2: "\<not> Number_isInteger (Fin (3 / 2))"
  by code_simp

lemma near_one_is_fractional: "\<not> denotes_positive_integer ''1.00000000000000001''"
  by code_simp

lemma db_query_error: "db_query q db = (Inl err, db') \<Longrightarrow> err = QueryError"
  by (cases q) (auto simp: db_query_def Let_def split: option.splits if_splits)

lemma reply_of_query_not_400:
  "fst (case db_query q db of
          (Inl err, db') \<Rightarrow> (errorMiddleware err, db')
        | (Inr rows, db') \<Rightarrow>
            (case rows of
               [] \<Rightarrow> (errorMiddleware (ClientError 404 msg), db')
             | entry # _ \<Rightarrow> (Response st (EntryReply entry), db')))
   \<noteq> Response 400 (ErrorReply msg')"
proof (cases "db_query q db")
  case (Pair r db')
  show ?thesis
  proof (cases r)
    case (Inl err)
    with Pair have "err = QueryError" by (simp add: db_query_error)
    with Pair Inl show ?thesis by (simp add: errorMiddleware_def)
  next
    case (Inr rows)
    with Pair show ?thesis by (cases rows) (simp_all add: errorMiddleware_def)
  qed
qed

lemma get_entry_invalid_iff:
  "(fst (get_entry s db) = Response 400 (ErrorReply ''Invalid entryId.''))
   = (Number_isNaN (JStr s) \<or> \<not> Number_isInteger (unary_plus s) \<or> less_than_one (Number s))"
  (is "?l = ?chk")
proof (cases ?chk)
  case True
  show ?thesis unfolding get_entry_def if_P [OF True] using True
    by (simp add: errorMiddleware_def)
next
  case False
  have "\<not> ?l" unfolding get_entry_def if_not_P [OF False] by (rule reply_of_query_not_400)
  with False show ?thesis by simp
qed

lemma delete_entry_invalid_iff:
  "(fst (delete_entry s db) = Response 400 (ErrorReply ''Invalid entryId.''))
   = (Number_isNaN (JStr s) \<or> \<not> Number_isInteger (unary_plus s) \<or> less_than_one (Number s))"
  (is "?l = ?chk")
proof (cases ?chk)
  case True
  show ?thesis unfolding delete_entry_def if_P [OF True] using True
    by (simp add: errorMiddleware_def)
next
  case False
  have "\<not> ?l" unfolding delete_entry_def if_not_P [OF False]
    by (rule reply_of_query_not_400)
  with False show ?thesis by simp
qed

lemma update_entry_invalid_iff:
  "(fst (update_entry s b db) = Response 400 (ErrorReply ''Invalid entryId.''))
   = (Number_isNaN (JStr s) \<or> \<not> Number_isInteger (unary_plus s) \<or> less_than_one (Number s))"
  (is "?l = ?chk")
proof (cases ?chk)
  case True
  show ?thesis unfolding update_entry_def if_P [OF True] using True
    by (simp add: errorMiddleware_def)
next
  case False
  have "\<not> ?l"
  proof (cases "falsy (req_title b) \<or> falsy (req_notes b) \<or> falsy (req_photoUrl b)")
    case True
    show ?thesis unfolding update_entry_def if_not_P [OF False] if_P [OF True]
      by (simp add: errorMiddleware_def)
  next
    case nf: False
    show ?thesis unfolding update_entry_def if_not_P [OF False] if_not_P [OF nf]
      by (rule reply_of_query_not_400)
  qed
  with False show ?thesis by simp
qed

lemma store_ok_log: "store_ok (db\<lparr>queries := qs\<rparr>) = store_ok db"
  by (simp add: store_ok_def)

lemma db_query_update:
  assumes "keyOfParam p = Some k"
  shows "db_query (UpdateById t n u p) db
         = (Inr (map (\<lambda>r. r\<lparr>title := t, notes' := n, photoUrl := u\<rparr>)
                   (filter (\<lambda>r. entryId r = k) (entries db))),
            db\<lparr>queries := queries db @ [UpdateById t n u p],
               entries := map (\<lambda>r. if entryId r = k
                                     then r\<lparr>title := t, notes' := n, photoUrl := u\<rparr>
                                     else r) (entries db)\<rparr>)"
  by (simp add: db_query_def Let_def assms)

lemma db_query_delete:
  assumes "keyOfParam p = Some k"
  shows "db_query (DeleteById p) db
         = (Inr (filter (\<lambda>r. entryId r = k) (entries db)),
            db\<lparr>queries := queries db @ [DeleteById p],
               entries := filter (\<lambda>r. entryId r \<noteq> k) (entries db)\<rparr>)"
  by (simp add: db_query_def Let_def assms)

lemma update_existing:
  assumes "store_ok db" "e \<in> set (entries db)" "entryId e < 2 ^ 53"
    and "\<not> falsy (req_title b)" "\<not> falsy (req_notes b)" "\<not> falsy (req_photoUrl b)"
  shows "update_entry (toString (entryId e)) b db
         = (Response 201 (EntryReply (e\<lparr>title := the (req_title b),
                                        notes' := the (req_notes b),
                                        photoUrl := the (req_photoUrl b)\<rparr>)),
            db\<lparr>queries := queries db
                    @ [UpdateById (the (req_title b)) (the (req_notes b))
                         (the (req_photoUrl b)) (PNumber (Fin (of_int (entryId e))))],
               entries := map (\<lambda>r. if entryId r = entryId e
                                     then r\<lparr>title := the (req_title b),
                                            notes' := the (req_notes b),
                                            photoUrl := the (req_photoUrl b)\<rparr>
                                     else r) (entries db)\<rparr>)"
proof -
  have pos: "1 \<le> entryId e" using store_ok_row [OF assms(1,2)] by simp
  then have nn: "0 \<le> entryId e" by simp
  have chk: "\<not> (Number_isNaN (JStr (toString (entryId e)))
                \<or> \<not> Number_isInteger (unary_plus (toString (entryId e)))
                \<or> less_than_one (Number (toString (entryId e))))"
    by (rule entryId_check_toString [OF pos assms(3)])
  have nf: "\<not> (falsy (req_title b) \<or> falsy (req_notes b) \<or> falsy (req_photoUrl b))"
    using assms(4-6) by simp
  have rows: "filter (\<lambda>r. entryId r = entryId e) (entries db) = [e]"
    using assms(1,2) by (intro filter_key_unique) (simp_all add: store_ok_def)
  show ?thesis
    unfolding update_entry_def if_not_P [OF chk] if_not_P [OF nf]
    by (simp add: Number_toString [OF nn assms(3)]
        db_query_update [OF keyOfParam_number [OF nn assms(3)]] rows)
qed

lemma trip_entry_in_trip_store: "trip_entry \<in> set (entries trip_store)"
  by (simp add: trip_store_def)

lemma trip_entry_key_safe: "entryId trip_entry < 2 ^ 53"
  by (simp add: trip_entry_def)

lemma delete_existing:
  assumes "store_ok db" "e \<in> set (entries db)" "entryId e < 2 ^ 53"
  shows "delete_entry (toString (entryId e)) db
         = (Response 200 (EntryReply e),
            db\<lparr>queries := queries db @ [DeleteById (PText (toString (entryId e)))],
               entries := filter (\<lambda>r. entryId r \<noteq> entryId e) (entries db)\<rparr>)"
proof -
  have pos: "1 \<le> entryId e" using store_ok_row [OF assms(1,2)] by simp
  then have nn: "0 \<le> entryId e" by simp
  have chk: "\<not> (Number_isNaN (JStr (toString (entryId e)))
                \<or> \<not> Number_isInteger (unary_plus (toString (entryId e)))
                \<or> less_than_one (Number (toString (entryId e))))"
    by (rule entryId_check_toString [OF pos assms(3)])
  have rows: "filter (\<lambda>r. entryId r = entryId e) (entries db) = [e]"
    using assms(1,2) by (intro filter_key_unique) (simp_all add: store_ok_def)
  show ?thesis
    unfolding delete_entry_def if_not_P [OF chk]
    by (simp add: db_query_delete [OF keyOfParam_text [OF nn]] rows)
qed

lemma keyOfParam_integer:
  "keyOfParam (PNumber (Fin (of_int n))) = None
   \<or> keyOfParam (PNumber (Fin (of_int n))) = Some n"
  by (simp add: keyOfParam_def)

lemma db_query_update_failed:
  assumes "keyOfParam p = None"
  shows "snd (db_query (UpdateById t n u p) db) = db\<lparr>queries := queries db @ [UpdateById t n u p]\<rparr>"
  by (simp add: db_query_def Let_def assms)

lemma update_entry_effect:
  "snd (update_entry s b db) = db
   \<or> snd (update_entry s b db)
     = db\<lparr>queries := queries db
              @ [UpdateById (the (req_title b)) (the (req_notes b)) (the (req_photoUrl b))
                   (PNumber (Number s))]\<rparr>
   \<or> (\<exists>n. Number s = Fin (of_int n)
          \<and> snd (update_entry s b db)
            = db\<lparr>queries := queries db
                     @ [UpdateById (the (req_title b)) (the (req_notes b))
                          (the (req_photoUrl b)) (PNumber (Number s))],
                  entries := map (\<lambda>r. if entryId r = n
                                        then r\<lparr>title := the (req_title b),
                                               notes' := the (req_notes b),
                                               photoUrl := the (req_photoUrl b)\<rparr>
                                        else r) (entries db)\<rparr>)"
  (is "?same \<or> ?logged \<or> ?updated")
proof (cases "Number_isNaN (JStr s) \<or> \<not> Number_isInteger (unary_plus s)
              \<or> less_than_one (Number s)")
  case True
  have "snd (update_entry s b db) = db"
    unfolding update_entry_def if_P [OF True] by simp
  then show ?thesis by simp
next
  case False
  then obtain n where n: "Number s = Fin (of_int n)"
    unfolding entryId_check_iff by blast
  let ?q = "UpdateById (the (req_title b)) (the (req_notes b)) (the (req_photoUrl b))
              (PNumber (Number s))"
  from update_entry_store [of s b db] show ?thesis
  proof
    assume "snd (update_entry s b db) = db"
    then show ?thesis by simp
  next
    assume q: "snd (update_entry s b db) = snd (db_query ?q db)"
    from keyOfParam_integer [of n] show ?thesis
    proof
      assume "keyOfParam (PNumber (Fin (of_int n))) = None"
      then have "keyOfParam (PNumber (Number s)) = None" by (simp only: n)
      then have ?logged
        unfolding q by (rule db_query_update_failed)
      then show ?thesis by simp
    next
      assume "keyOfParam (PNumber (Fin (of_int n))) = Some n"
      then have "keyOfParam (PNumber (Number s)) = Some n" by (simp only: n)
      then have "snd (update_entry s b db)
            = db\<lparr>queries := queries db @ [?q],
                  entries := map (\<lambda>r. if entryId r = n
                                        then r\<lparr>title := the (req_title b),
                                               notes' := the (req_notes b),
                                               photoUrl := the (req_photoUrl b)\<rparr>
                                        else r) (entries db)\<rparr>"
        unfolding q by (simp only: db_query_update snd_conv)
      with n have ?updated by blast
      then show ?thesis by simp
    qed
  qed
qed

lemma update_entry_keeps_sequence: "nextEntryId (snd (update_entry s b db)) = nextEntryId db"
  using update_entry_effect [of s b db] by auto

lemma update_entry_rows:
  "entries (snd (update_entry s b db)) = entries db
   \<or> (\<exists>n. Number s = Fin (of_int n)
          \<and> entries (snd (update_entry s b db))
            = map (\<lambda>r. if entryId r = n
                        then r\<lparr>title := the (req_title b), notes' := the (req_notes b),
                               photoUrl := the (req_photoUrl b)\<rparr>
                        else r) (entries db))"
  using update_entry_effect [of s b db] by auto

lemma store_ok_two_store: "store_ok two_store"
  by (simp add: store_ok_def two_store_def trip_entry_def walk_entry_def)

lemma Number_1: "Number ''1'' = Fin 1"
proof -
  have "toString 1 = ''1''" by code_simp
  with Number_toString [of 1] show ?thesis by simp
qed

section \<open>Claims\<close>

text \<open>
  C1, as stated: every path text that does not denote a positive integer (non-numeric,
  zero, negative or fractional) is answered 400 by get, update and delete, and no
  statement reaches the store. The text \<open>1.00000000000000001\<close> denotes a fraction, yet
  its conversion to a Number rounds to \<open>1\<close>: get sends a select and answers 200 with
  the entry whose key is 1.
\<close>

theorem fractional_path_reaches_store_counterexample:
  "\<not> denotes_positive_integer ''1.00000000000000001''
   \<and> get_entry ''1.00000000000000001'' trip_store
     = (Response 200 (EntryReply trip_entry),
        trip_store\<lparr>queries := [SelectById (PNumber (Fin 1))]\<rparr>)"
proof
  show "\<not> denotes_positive_integer ''1.00000000000000001''"
    by (rule near_one_is_fractional)
  have k: "keyOfParam (PNumber (Fin 1)) = Some 1" by (simp add: keyOfParam_def)
  have nchk: "\<not> (Number_isNaN (JStr ''1.00000000000000001'')
                 \<or> \<not> Number_isInteger (unary_plus ''1.00000000000000001'')
                 \<or> less_than_one (Number ''1.00000000000000001''))"
    by (simp add: Number_isNaN_string unary_plus_def Number_near_one Number_isInteger_def
        less_than_one_def)
  show "get_entry ''1.00000000000000001'' trip_store
     = (Response 200 (EntryReply trip_entry),
        trip_store\<lparr>queries := [SelectById (PNumber (Fin 1))]\<rparr>)"
    unfolding get_entry_def if_not_P [OF nchk]
    by (simp add: Number_near_one db_query_def k trip_store_def trip_entry_def)
qed

text \<open>
  C1, amended: every path text whose conversion to a Number is not an integer, or is
  below 1 (so every non-numeric text, and every numeric text whose double is zero,
  negative, fractional or infinite) is answered 400 by get, update and delete, and
  the store is left as it was, its log of statements included.
\<close>

theorem invalid_entryId_rejected_without_query:
  assumes "\<not> Number_isInteger (Number s) \<or> less_than_one (Number s)"
  shows "get_entry s db = (Response 400 (ErrorReply ''Invalid entryId.''), db)
       \<and> update_entry s b db = (Response 400 (ErrorReply ''Invalid entryId.''), db)
       \<and> delete_entry s db = (Response 400 (ErrorReply ''Invalid entryId.''), db)"
proof -
  have chk: "Number_isNaN (JStr s) \<or> \<not> Number_isInteger (unary_plus s)
             \<or> less_than_one (Number s)"
    using assms by (simp only: entryId_check_exec)
  show ?thesis
    unfolding get_entry_def update_entry_def delete_entry_def if_P [OF chk]
    by (simp add: errorMiddleware_def)
qed

theorem invalid_entryId_rejected_without_query_witness:
  "\<not> Number_isInteger (Number ''1.5'')
   \<and> get_entry ''1.5'' trip_store = (Response 400 (ErrorReply ''Invalid entryId.''), trip_store)
   \<and> update_entry ''1.5'' trip trip_store
       = (Response 400 (ErrorReply ''Invalid entryId.''), trip_store)
   \<and> delete_entry ''1.5'' trip_store
       = (Response 400 (ErrorReply ''Invalid entryId.''), trip_store)"
proof -
  have h: "\<not> Number_isInteger (Number ''1.5'')"
    by (simp add: Number_1_5 not_integer_3_2)
  then have "\<not> Number_isInteger (Number ''1.5'') \<or> less_than_one (Number ''1.5'')" ..
  from h invalid_entryId_rejected_without_query [OF this, of trip_store trip]
  show ?thesis by blast
qed

text \<open>
  C2. A create or update request in which any of title, notes or photoUrl is missing or
  empty is answered with status 400, and the store is left as it was: no statement is
  sent and no row is written. For an update this holds for every path text.
\<close>

theorem missing_field_rejected_without_write:
  assumes "falsy (req_title b) \<or> falsy (req_notes b) \<or> falsy (req_photoUrl b)"
  shows "status (fst (create_entry b db)) = 400 \<and> snd (create_entry b db) = db
       \<and> status (fst (update_entry entryId_param b db)) = 400
       \<and> snd (update_entry entryId_param b db) = db"
  using assms by (simp add: create_entry_def update_entry_def errorMiddleware_def)

theorem missing_field_rejected_without_write_witness:
  "falsy (req_notes \<lparr>req_entryId = None, req_title = Some ''Trip'', req_notes = None,
                      req_photoUrl = Some ''http://x/y.jpg''\<rparr>)
   \<and> status (fst (create_entry \<lparr>req_entryId = None, req_title = Some ''Trip'',
                      req_notes = None, req_photoUrl = Some ''http://x/y.jpg''\<rparr>
                    empty_store)) = 400
   \<and> snd (update_entry ''1'' \<lparr>req_entryId = None, req_title = Some ''Trip'',
                      req_notes = None, req_photoUrl = Some ''http://x/y.jpg''\<rparr>
             empty_store) = empty_store"
proof -
  have h: "falsy (req_notes \<lparr>req_entryId = None, req_title = Some ''Trip'', req_notes = None,
                      req_photoUrl = Some ''http://x/y.jpg''\<rparr>)"
    by (simp add: falsy_def)
  show ?thesis
    using h missing_field_rejected_without_write
      [of "\<lparr>req_entryId = None, req_title = Some ''Trip'', req_notes = None,
            req_photoUrl = Some ''http://x/y.jpg''\<rparr>" empty_store "''1''"]
    by blast
qed

text \<open>
  C3. A create request whose title, notes and photoUrl are all present and non-empty is
  answered with status 201 and the created entry: its entryId is the next value of the
  key sequence of the store, which no row had, and its three fields are exactly the
  submitted values.
\<close>

theorem create_returns_created_entry:
  assumes "\<not> falsy (req_title b)" "\<not> falsy (req_notes b)" "\<not> falsy (req_photoUrl b)"
    and "store_ok db"
  shows "\<exists>e. fst (create_entry b db) = Response 201 (EntryReply e)
             \<and> entryId e = nextEntryId db
             \<and> entryId e \<notin> entryId ` set (entries db)
             \<and> req_title b = Some (title e) \<and> req_notes b = Some (notes' e)
             \<and> req_photoUrl b = Some (photoUrl e)
             \<and> entries (snd (create_entry b db)) = entries db @ [e]"
proof -
  have "nextEntryId db \<notin> entryId ` set (entries db)"
    using assms(4) by (auto simp: store_ok_def list_all_iff)
  then show ?thesis
    using assms(1-3)
    by (auto simp: create_entry_def insert_into_ok_store [OF assms(4)] falsy_def
        split: option.splits)
qed

theorem create_returns_created_entry_witness:
  "\<not> falsy (req_title trip) \<and> \<not> falsy (req_notes trip) \<and> \<not> falsy (req_photoUrl trip)
   \<and> store_ok empty_store
   \<and> (\<exists>e. fst (create_entry trip empty_store) = Response 201 (EntryReply e)
           \<and> entryId e = nextEntryId empty_store
           \<and> entryId e \<notin> entryId ` set (entries empty_store)
           \<and> req_title trip = Some (title e) \<and> req_notes trip = Some (notes' e)
           \<and> req_photoUrl trip = Some (photoUrl e)
           \<and> entries (snd (create_entry trip empty_store)) = entries empty_store @ [e])"
proof -
  have h: "\<not> falsy (req_title trip)" "\<not> falsy (req_notes trip)" "\<not> falsy (req_photoUrl trip)"
    by (simp_all add: falsy_def trip_def)
  show ?thesis
    using h store_ok_empty_store create_returns_created_entry [OF h store_ok_empty_store]
    by blast
qed

text \<open>
  C4. Round trip: after a create with three non-empty fields, a get whose path is the
  returned entryId, written as the client writes a Number into the path, answers 200
  with that same entry. The store is one that only the handlers have written to, and
  the key is below \<open>2 ^ 53\<close>, the range in which a Number holds an integer exactly.
\<close>

theorem created_entry_round_trip:
  assumes "\<not> falsy (req_title b)" "\<not> falsy (req_notes b)" "\<not> falsy (req_photoUrl b)"
    and "store_ok db" "nextEntryId db < 2 ^ 53"
  shows "\<exists>e. fst (create_entry b db) = Response 201 (EntryReply e)
             \<and> fst (get_entry (toString (entryId e)) (snd (create_entry b db)))
               = Response 200 (EntryReply e)"
proof -
  let ?e = "\<lparr>entryId = nextEntryId db, title = the (req_title b),
             notes' = the (req_notes b), photoUrl = the (req_photoUrl b)\<rparr>"
  let ?q = "InsertEntry (the (req_title b)) (the (req_notes b)) (the (req_photoUrl b))"
  have c: "create_entry b db = (Response 201 (EntryReply ?e), snd (db_query ?q db))"
    using assms(1-3) by (simp add: create_entry_def insert_into_ok_store [OF assms(4)])
  have ok: "store_ok (snd (db_query ?q db))"
    by (rule db_query_keeps_store_ok [OF assms(4)])
  have mem: "?e \<in> set (entries (snd (db_query ?q db)))"
    by (simp add: insert_into_ok_store [OF assms(4)])
  have "get_entry (toString (entryId ?e)) (snd (db_query ?q db))
        = (Response 200 (EntryReply ?e),
           (snd (db_query ?q db))\<lparr>queries := queries (snd (db_query ?q db))
              @ [SelectById (PNumber (Fin (of_int (entryId ?e))))]\<rparr>)"
    by (rule get_entry_existing [OF ok mem]) (use assms(5) in simp)
  with c show ?thesis by simp
qed

theorem created_entry_round_trip_witness:
  "\<not> falsy (req_title trip) \<and> \<not> falsy (req_notes trip) \<and> \<not> falsy (req_photoUrl trip)
   \<and> store_ok empty_store \<and> nextEntryId empty_store < 2 ^ 53
   \<and> (\<exists>e. fst (create_entry trip empty_store) = Response 201 (EntryReply e)
           \<and> fst (get_entry (toString (entryId e)) (snd (create_entry trip empty_store)))
             = Response 200 (EntryReply e))"
proof -
  have h: "\<not> falsy (req_title trip)" "\<not> falsy (req_notes trip)" "\<not> falsy (req_photoUrl trip)"
    by (simp_all add: falsy_def trip_def)
  have n: "nextEntryId empty_store < 2 ^ 53" by (simp add: empty_store_def)
  show ?thesis
    using h store_ok_empty_store n created_entry_round_trip [OF h store_ok_empty_store n]
    by blast
qed

text \<open>
  C5. An update of an existing entry with three non-empty fields answers 201 with the
  entry made of the old entryId and the three submitted values, and a get on the same
  path then answers 200 with exactly that entry: nothing of the old title, notes or
  photoUrl is left.
\<close>

theorem update_replaces_all_fields:
  assumes "store_ok db" "e \<in> set (entries db)" "entryId e < 2 ^ 53"
    and "\<not> falsy (req_title b)" "\<not> falsy (req_notes b)" "\<not> falsy (req_photoUrl b)"
  shows "fst (update_entry (toString (entryId e)) b db)
           = Response 201 (EntryReply \<lparr>entryId = entryId e, title = the (req_title b),
                 notes' = the (req_notes b), photoUrl = the (req_photoUrl b)\<rparr>)
       \<and> fst (get_entry (toString (entryId e))
                (snd (update_entry (toString (entryId e)) b db)))
           = Response 200 (EntryReply \<lparr>entryId = entryId e, title = the (req_title b),
                 notes' = the (req_notes b), photoUrl = the (req_photoUrl b)\<rparr>)"
proof -
  let ?e' = "\<lparr>entryId = entryId e, title = the (req_title b),
              notes' = the (req_notes b), photoUrl = the (req_photoUrl b)\<rparr>"
  let ?f = "\<lambda>r. if entryId r = entryId e
                then r\<lparr>title := the (req_title b), notes' := the (req_notes b),
                        photoUrl := the (req_photoUrl b)\<rparr>
                else r"
  let ?db' = "snd (update_entry (toString (entryId e)) b db)"
  have e': "e\<lparr>title := the (req_title b), notes' := the (req_notes b),
              photoUrl := the (req_photoUrl b)\<rparr> = ?e'"
    by simp
  have u: "fst (update_entry (toString (entryId e)) b db) = Response 201 (EntryReply ?e')"
    by (simp add: update_existing [OF assms])
  have ents: "entries ?db' = map ?f (entries db)"
    by (simp add: update_existing [OF assms])
  have ok: "store_ok ?db'"
    using update_entry_store [of "toString (entryId e)" b db]
  proof
    assume "?db' = db"
    with assms(1) show ?thesis by simp
  next
    assume "?db' = snd (db_query (UpdateById (the (req_title b)) (the (req_notes b))
                                    (the (req_photoUrl b))
                                    (PNumber (Number (toString (entryId e))))) db)"
    with db_query_keeps_store_ok [OF assms(1)] show ?thesis by simp
  qed
  have fe: "?f e = ?e'" by (simp only: simp_thms if_True e')
  have "?e' \<in> ?f ` set (entries db)" by (rule image_eqI [where x = e]) (simp_all only: fe assms(2))
  then have mem: "?e' \<in> set (entries ?db')" by (simp only: ents set_map)
  have "get_entry (toString (entryId ?e')) ?db'
        = (Response 200 (EntryReply ?e'),
           ?db'\<lparr>queries := queries ?db'
              @ [SelectById (PNumber (Fin (of_int (entryId ?e'))))]\<rparr>)"
    by (rule get_entry_existing [OF ok mem]) (use assms(3) in simp)
  then have "fst (get_entry (toString (entryId e)) ?db') = Response 200 (EntryReply ?e')"
    by simp
  with u show ?thesis by simp
qed

theorem update_replaces_all_fields_witness:
  "store_ok trip_store \<and> trip_entry \<in> set (entries trip_store) \<and> entryId trip_entry < 2 ^ 53
   \<and> \<not> falsy (req_title walk) \<and> \<not> falsy (req_notes walk) \<and> \<not> falsy (req_photoUrl walk)
   \<and> fst (update_entry (toString (entryId trip_entry)) walk trip_store)
       = Response 201 (EntryReply \<lparr>entryId = entryId trip_entry, title = the (req_title walk),
             notes' = the (req_notes walk), photoUrl = the (req_photoUrl walk)\<rparr>)
   \<and> fst (get_entry (toString (entryId trip_entry))
            (snd (update_entry (toString (entryId trip_entry)) walk trip_store)))
       = Response 200 (EntryReply \<lparr>entryId = entryId trip_entry, title = the (req_title walk),
             notes' = the (req_notes walk), photoUrl = the (req_photoUrl walk)\<rparr>)"
proof -
  have f: "\<not> falsy (req_title walk)" "\<not> falsy (req_notes walk)" "\<not> falsy (req_photoUrl walk)"
    by (simp_all add: falsy_def walk_def)
  show ?thesis
    using store_ok_trip_store trip_entry_in_trip_store trip_entry_key_safe f
      update_replaces_all_fields
        [OF store_ok_trip_store trip_entry_in_trip_store trip_entry_key_safe f]
    by blast
qed

text \<open>
  C6. A delete of an existing entry answers 200 with that entry, and from then on a get
  on the same entryId answers 404, whatever requests are served in between: the key
  sequence never gives the key out again.
\<close>

theorem deleted_entry_is_gone:
  assumes "store_ok db" "e \<in> set (entries db)" "entryId e < 2 ^ 53"
  shows "fst (delete_entry (toString (entryId e)) db) = Response 200 (EntryReply e)
       \<and> (\<forall>reqs. fst (get_entry (toString (entryId e))
                         (serve reqs (snd (delete_entry (toString (entryId e)) db))))
                  = Response 404
                      (ErrorReply (''entryId '' @ toString (entryId e) @ '' does not exist.'')))"
proof (intro conjI allI)
  let ?db' = "snd (delete_entry (toString (entryId e)) db)"
  show "fst (delete_entry (toString (entryId e)) db) = Response 200 (EntryReply e)"
    by (simp add: delete_existing [OF assms])
  fix reqs
  have pos: "1 \<le> entryId e" and below: "entryId e < nextEntryId db"
    using store_ok_row [OF assms(1,2)] by simp_all
  have gone: "entryId e \<notin> entryId ` set (entries ?db')"
    by (auto simp: delete_existing [OF assms])
  have seq: "entryId e < nextEntryId ?db'"
    using below by (simp add: delete_existing [OF assms])
  have "entryId e \<notin> entryId ` set (entries (serve reqs ?db'))"
    by (rule serve_keeps_absent [OF gone seq])
  then show "fst (get_entry (toString (entryId e)) (serve reqs ?db'))
             = Response 404
                 (ErrorReply (''entryId '' @ toString (entryId e) @ '' does not exist.''))"
    by (rule get_entry_absent [OF pos assms(3)])
qed

theorem deleted_entry_is_gone_witness:
  "store_ok trip_store \<and> trip_entry \<in> set (entries trip_store) \<and> entryId trip_entry < 2 ^ 53
   \<and> fst (delete_entry (toString (entryId trip_entry)) trip_store)
       = Response 200 (EntryReply trip_entry)
   \<and> fst (get_entry (toString (entryId trip_entry))
            (serve [PostEntry walk, GetEntries]
               (snd (delete_entry (toString (entryId trip_entry)) trip_store))))
       = Response 404
           (ErrorReply (''entryId '' @ toString (entryId trip_entry) @ '' does not exist.''))"
  using store_ok_trip_store trip_entry_in_trip_store trip_entry_key_safe
    deleted_entry_is_gone [OF store_ok_trip_store trip_entry_in_trip_store trip_entry_key_safe]
  by blast

text \<open>
  C7. Create never answers 404: an insert that returns its row returns exactly one, or
  the statement fails, so the not-found branch of the handler is not reached. In a
  store that only the handlers have written to, the insert always returns its row and
  the answer is 201 or 400.
\<close>

theorem create_never_not_found:
  "status (fst (create_entry b db)) \<noteq> 404
   \<and> fst (db_query (InsertEntry t n u) db) \<noteq> Inr []
   \<and> (store_ok db \<longrightarrow> (\<exists>r. fst (db_query (InsertEntry t n u) db) = Inr [r]))
   \<and> (store_ok db \<longrightarrow>
        status (fst (create_entry b db)) = 201 \<or> status (fst (create_entry b db)) = 400)"
proof (intro conjI impI)
  show "fst (db_query (InsertEntry t n u) db) \<noteq> Inr []"
    by (simp add: db_query_def Let_def)
  show "status (fst (create_entry b db)) \<noteq> 404"
    by (simp add: create_entry_def db_query_def Let_def errorMiddleware_def)
next
  assume ok: "store_ok db"
  show "\<exists>r. fst (db_query (InsertEntry t n u) db) = Inr [r]"
    by (simp add: insert_into_ok_store [OF ok])
  show "status (fst (create_entry b db)) = 201 \<or> status (fst (create_entry b db)) = 400"
    by (simp add: create_entry_def insert_into_ok_store [OF ok] errorMiddleware_def)
qed

theorem create_never_not_found_witness:
  "store_ok empty_store
   \<and> fst (db_query (InsertEntry ''Trip'' ''Fun'' ''http://x/y.jpg'') empty_store)
     = Inr [trip_entry]
   \<and> status (fst (create_entry trip empty_store)) = 201
   \<and> status (fst (create_entry trip empty_store)) \<noteq> 404"
proof -
  have "fst (db_query (InsertEntry ''Trip'' ''Fun'' ''http://x/y.jpg'') empty_store)
        = Inr [trip_entry]"
    by (simp add: db_query_def Let_def empty_store_def trip_entry_def)
  then show ?thesis
    using create_never_not_found [of trip empty_store] store_ok_empty_store
    by (simp add: example_create)
qed

text \<open>
  C8. An update leaves every key as it was and the key sequence untouched; an entryId
  in the JSON body is ignored; each row is either unchanged or is the row whose key is
  the Number of the path, with its title, notes and photoUrl set to the submitted
  values; and in a store with unique keys at most one row changes.
\<close>

theorem update_changes_only_the_selected_row:
  "update_entry s (b\<lparr>req_entryId := x\<rparr>) db = update_entry s b db
   \<and> map entryId (entries (snd (update_entry s b db))) = map entryId (entries db)
   \<and> nextEntryId (snd (update_entry s b db)) = nextEntryId db
   \<and> (\<forall>i < length (entries db).
         entries (snd (update_entry s b db)) ! i = entries db ! i
         \<or> (Number s = Fin (of_int (entryId (entries db ! i)))
            \<and> entries (snd (update_entry s b db)) ! i
              = (entries db ! i)\<lparr>title := the (req_title b), notes' := the (req_notes b),
                                   photoUrl := the (req_photoUrl b)\<rparr>))
   \<and> (store_ok db \<longrightarrow>
        (\<forall>i < length (entries db). \<forall>j < length (entries db).
           entries (snd (update_entry s b db)) ! i \<noteq> entries db ! i
           \<and> entries (snd (update_entry s b db)) ! j \<noteq> entries db ! j \<longrightarrow> i = j))"
proof -
  let ?rows' = "entries (snd (update_entry s b db))"
  let ?set = "\<lambda>r. r\<lparr>title := the (req_title b), notes' := the (req_notes b),
                      photoUrl := the (req_photoUrl b)\<rparr>"
  have body: "update_entry s (b\<lparr>req_entryId := x\<rparr>) db = update_entry s b db"
    by (simp add: update_entry_def)
  from update_entry_rows [of s b db] consider
    (same) "?rows' = entries db"
    | (updated) n where "Number s = Fin (of_int n)"
        "?rows' = map (\<lambda>r. if entryId r = n then ?set r else r) (entries db)"
    by blast
  then have rest:
    "map entryId ?rows' = map entryId (entries db)
     \<and> (\<forall>i < length (entries db).
           ?rows' ! i = entries db ! i
           \<or> (Number s = Fin (of_int (entryId (entries db ! i)))
              \<and> ?rows' ! i = ?set (entries db ! i)))
     \<and> (store_ok db \<longrightarrow>
          (\<forall>i < length (entries db). \<forall>j < length (entries db).
             ?rows' ! i \<noteq> entries db ! i \<and> ?rows' ! j \<noteq> entries db ! j \<longrightarrow> i = j))"
  proof cases
    case same
    then show ?thesis by simp
  next
    case updated
    have keys: "map entryId ?rows' = map entryId (entries db)"
      by (simp add: updated(2) set_fields_keeps_key)
    have each: "\<forall>i < length (entries db).
           ?rows' ! i = entries db ! i
           \<or> (Number s = Fin (of_int (entryId (entries db ! i)))
              \<and> ?rows' ! i = ?set (entries db ! i))"
      by (simp add: updated)
    have one: "i = j"
      if ok: "store_ok db" and i: "i < length (entries db)" and j: "j < length (entries db)"
        and ci: "?rows' ! i \<noteq> entries db ! i" and cj: "?rows' ! j \<noteq> entries db ! j"
      for i j
    proof -
      have "entryId (entries db ! i) = n"
        using ci i by (simp add: updated(2) split: if_splits)
      moreover have "entryId (entries db ! j) = n"
        using cj j by (simp add: updated(2) split: if_splits)
      ultimately have same_key: "entryId (entries db ! i) = entryId (entries db ! j)"
        by simp
      have d: "distinct (map entryId (entries db))"
        using ok by (simp add: store_ok_def)
      from nth_eq_iff_index_eq [OF d, of i j] i j
      have "(entryId (entries db ! i) = entryId (entries db ! j)) = (i = j)" by simp
      with same_key show ?thesis by simp
    qed
    show ?thesis using keys each one by blast
  qed
  show ?thesis
    using body update_entry_keeps_sequence [of s b db] rest by blast
qed

theorem update_changes_only_the_selected_row_witness:
  "store_ok two_store \<and> 1 < length (entries two_store)
   \<and> Number ''1'' \<noteq> Fin (of_int (entryId (entries two_store ! 1)))
   \<and> entries (snd (update_entry ''1'' walk two_store)) ! 1 = entries two_store ! 1
   \<and> update_entry ''1'' (walk\<lparr>req_entryId := None\<rparr>) two_store
     = update_entry ''1'' walk two_store"
proof -
  have l: "1 < length (entries two_store)" by (simp add: two_store_def)
  have n: "Number ''1'' \<noteq> Fin (of_int (entryId (entries two_store ! 1)))"
    by (simp add: Number_1 two_store_def walk_entry_def)
  show ?thesis
    using store_ok_two_store l n
      update_changes_only_the_selected_row
        [where s = "''1''" and b = walk and x = None and db = two_store]
    by blast
qed

text \<open>
  C9. A submit calls create (POST) when the route has no existing identifier and update
  (PUT, on that identifier) when it has one, and then navigates to the list view. The
  effects of the call are the same whatever the outcome of the request; a failed
  request only rejects the promise that was dropped, with one fixed message, and the
  state of the component, hence what it shows, is unchanged.
\<close>

theorem submit_navigates_whatever_the_outcome:
  "fst (handleSubmit p st fd out)
     = [PreventDefault,
        (if isEditing p
         then Fetch PUT (''/api/entries/'' @ the p)
                \<lparr>req_entryId = map_option entryId (form_entry st),
                   req_title = Some (fd_title fd), req_notes = Some (fd_notes fd),
                   req_photoUrl = Some (fd_photoUrl fd)\<rparr>
         else Fetch POST ''/api/entries''
                \<lparr>req_entryId = None,
                   req_title = Some (fd_title fd), req_notes = Some (fd_notes fd),
                   req_photoUrl = Some (fd_photoUrl fd)\<rparr>),
        Navigate ''/'']
   \<and> fst (handleSubmit p st fd out) = fst (handleSubmit p st fd out')
   \<and> snd (snd (handleSubmit p st fd out)) = st
   \<and> render p (snd (snd (handleSubmit p st fd out))) = render p st
   \<and> (out = NetworkError \<or> (\<exists>c. out = Responded c \<and> \<not> res_ok c) \<longrightarrow>
        fst (snd (handleSubmit p st fd out))
        = Rejected ''Failed to add entry. Please try again.'')"
proof -
  have e: "isEditing p \<Longrightarrow> (case p of None \<Rightarrow> ''undefined'' | Some s \<Rightarrow> s) = the p"
    by (cases p) (simp_all add: isEditing_def)
  show ?thesis
    by (cases "isEditing p")
       (auto simp: handleSubmit_def Let_def updateEntry_def addEntry_def e
          updateEntry_settled_def addEntry_settled_def)
qed

theorem submit_navigates_whatever_the_outcome_witness:
  "\<not> isEditing (Some ''new'') \<and> \<not> res_ok 500
   \<and> fst (handleSubmit (Some ''new'') idle_form trip_form (Responded 500))
     = [PreventDefault, Fetch POST ''/api/entries'' trip, Navigate ''/'']
   \<and> fst (snd (handleSubmit (Some ''new'') idle_form trip_form (Responded 500)))
     = Rejected ''Failed to add entry. Please try again.''
   \<and> snd (snd (handleSubmit (Some ''new'') idle_form trip_form (Responded 500))) = idle_form"
  using submit_navigates_whatever_the_outcome
    [of "Some ''new''" idle_form trip_form "Responded 500"]
  by (simp add: isEditing_def trip_def trip_form_def res_ok_def)

text \<open>
  C10. Get, update and delete share one validation: each rejects a path text with
  ``Invalid entryId.'' exactly when \<open>Number\<close> of the text is not an integer of at least 1.
  \<open>Number.isNaN\<close> of the path text is false for every text. The texts \<open>1.0\<close>, \<open> 7 \<close>,
  \<open>0x10\<close> and \<open>2e3\<close> convert to the integers 1, 7, 16 and 2000, and are accepted.
\<close>

theorem entryId_validation_accepts_integer_numbers:
  "(fst (get_entry s db) = Response 400 (ErrorReply ''Invalid entryId.''))
     = (\<not> (\<exists>n. 1 \<le> n \<and> Number s = Fin (of_int n)))
   \<and> (fst (update_entry s b db) = Response 400 (ErrorReply ''Invalid entryId.''))
     = (\<not> (\<exists>n. 1 \<le> n \<and> Number s = Fin (of_int n)))
   \<and> (fst (delete_entry s db) = Response 400 (ErrorReply ''Invalid entryId.''))
     = (\<not> (\<exists>n. 1 \<le> n \<and> Number s = Fin (of_int n)))
   \<and> \<not> Number_isNaN (JStr s)
   \<and> Number ''1.0'' = Fin (of_int 1) \<and> Number '' 7 '' = Fin (of_int 7)
   \<and> Number ''0x10'' = Fin (of_int 16) \<and> Number ''2e3'' = Fin (of_int 2000)"
  unfolding get_entry_invalid_iff update_entry_invalid_iff delete_entry_invalid_iff
    entryId_check_iff
  by (simp add: Number_isNaN_string Number_1_0 Number_blank_7 Number_0x10 Number_2e3)

theorem entryId_validation_accepts_integer_numbers_witness:
  "Number ''2e3'' = Fin (of_int 2000)
   \<and> fst (get_entry ''2e3'' trip_store) \<noteq> Response 400 (ErrorReply ''Invalid entryId.'')
   \<and> fst (update_entry ''2e3'' walk trip_store) \<noteq> Response 400 (ErrorReply ''Invalid entryId.'')
   \<and> fst (delete_entry ''2e3'' trip_store) \<noteq> Response 400 (ErrorReply ''Invalid entryId.'')
   \<and> fst (get_entry ''two'' trip_store) = Response 400 (ErrorReply ''Invalid entryId.'')"
proof -
  have a: "\<exists>n. 1 \<le> n \<and> Number ''2e3'' = Fin (of_int n)"
    by (rule exI [of _ 2000]) (simp add: Number_2e3)
  have "Number ''two'' = NaN" by code_simp
  then have b: "\<not> (\<exists>n. 1 \<le> n \<and> Number ''two'' = Fin (of_int n))" by simp
  show ?thesis
    using a b
      entryId_validation_accepts_integer_numbers [of "''2e3''" trip_store walk]
      entryId_validation_accepts_integer_numbers [of "''two''" trip_store walk]
    by blast
qed

end
